theory Spec2Isabelle
  imports Complex_Main "HOL-Library.Word"
begin

unbundle bit_operations_syntax

section \<open>Bytes, errors and the byte-buffer codec\<close>

text \<open>
  A Node \<open>Buffer\<close> is a list of bytes. Every \<open>throw\<close> of the program is a value of
  \<open>error\<close>; a function that can throw returns \<open>error + 'a\<close> (\<open>Inl\<close> the error).
  \<open>TypeError\<close> is JavaScript's own error for a property read on \<open>undefined\<close>.
\<close>

type_synonym byte = "8 word"
type_synonym bytes = "byte list"

datatype error = TruncatedStream | InvalidVarint | StateMismatch | MalformedInput | TypeError

text \<open>Little-endian and big-endian values of a byte string, and the fixed-width encoding.\<close>

fun le_nat :: "bytes \<Rightarrow> nat" where
  "le_nat [] = 0"
| "le_nat (b # bs) = unat b + 256 * le_nat bs"

definition be_nat :: "bytes \<Rightarrow> nat" where
  "be_nat bs = le_nat (rev bs)"

fun le_bytes :: "nat \<Rightarrow> nat \<Rightarrow> bytes" where
  "le_bytes 0 v = []"
| "le_bytes (Suc n) v = word_of_nat (v mod 256) # le_bytes n (v div 256)"

text \<open>
  Modelled from the spec: \<open>BufferReader\<close> (lib/encoding/bufferreader.js) is not among the
  sources. The spec (sections 2, 4.2, 6 and 7) describes it as a reader over a byte
  sequence with a position cursor, with fixed-width little/big-endian reads, raw
  byte-range reads and reverse-order reads, where any read past the end of the available
  bytes is a decoding error (\<open>TruncatedStream\<close>) and nothing is truncated or zero-filled.
\<close>

record reader =
  buf :: bytes
  pos :: nat

type_synonym 'a parser = "reader \<Rightarrow> error + 'a \<times> reader"

definition BufferReader :: "bytes \<Rightarrow> reader" where
  "BufferReader b = \<lparr>buf = b, pos = 0\<rparr>"

definition remaining :: "reader \<Rightarrow> nat" where
  "remaining br = length (buf br) - pos br"

definition read :: "nat \<Rightarrow> bytes parser" where
  "read n br =
     (if pos br + n \<le> length (buf br)
      then Inr (take n (drop (pos br) (buf br)), br\<lparr>pos := pos br + n\<rparr>)
      else Inl TruncatedStream)"

text \<open>Sequencing of reads on the shared cursor: the first error ends the decode.\<close>

definition bind_r :: "'a parser \<Rightarrow> ('a \<Rightarrow> 'b parser) \<Rightarrow> 'b parser" where
  "bind_r m f br = (case m br of Inl e \<Rightarrow> Inl e | Inr (x, br') \<Rightarrow> f x br')"

definition return_r :: "'a \<Rightarrow> 'a parser" where
  "return_r x br = Inr (x, br)"

definition readReverse :: "nat \<Rightarrow> bytes parser" where
  "readReverse n = bind_r (read n) (\<lambda>b. return_r (rev b))"

definition readUInt32LE :: "32 word parser" where
  "readUInt32LE = bind_r (read 4) (\<lambda>b. return_r (word_of_nat (le_nat b)))"

definition readInt32LE :: "32 word parser" where
  "readInt32LE = bind_r (read 4) (\<lambda>b. return_r (word_of_nat (le_nat b)))"

definition readUInt16BE :: "nat parser" where
  "readUInt16BE = bind_r (read 2) (\<lambda>b. return_r (be_nat b))"

text \<open>
  \<open>br.buf.readUInt16BE(br.pos)\<close> is Node's own \<open>Buffer\<close> method: it reads two bytes at an
  offset without moving the cursor, and throws when they are not there.
\<close>

definition peekUInt16BE :: "nat parser" where
  "peekUInt16BE br =
     (case read 2 br of Inl e \<Rightarrow> Inl e | Inr (b, br') \<Rightarrow> Inr (be_nat b, br))"

text \<open>
  Modelled from the spec: \<open>BufferWriter\<close> (lib/encoding/bufferwriter.js) is not among the
  sources; the spec calls it the mirror image of the reader. A writer is the list of the
  bytes written so far, and \<open>concat()\<close> returns it.
\<close>

definition write_buf :: "bytes \<Rightarrow> bytes \<Rightarrow> bytes" where
  "write_buf b bw = bw @ b"

definition writeInt32LE :: "32 word \<Rightarrow> bytes \<Rightarrow> bytes" where
  "writeInt32LE w bw = bw @ le_bytes 4 (unat w)"

definition writeUInt32LE :: "32 word \<Rightarrow> bytes \<Rightarrow> bytes" where
  "writeUInt32LE w bw = bw @ le_bytes 4 (unat w)"

text \<open>Hexadecimal text: \<open>buf.toString('hex')\<close> and \<open>Buffer.from(str, 'hex')\<close> of Node.\<close>

definition hexdigit :: "nat \<Rightarrow> char" where
  "hexdigit n = ''0123456789abcdef'' ! (n mod 16)"

fun toString_hex :: "bytes \<Rightarrow> string" where
  "toString_hex [] = []"
| "toString_hex (b # bs) = hexdigit (unat b div 16) # hexdigit (unat b mod 16) # toString_hex bs"

definition hexval :: "char \<Rightarrow> nat option" where
  "hexval c =
     (let n = of_char c :: nat in
      if 48 \<le> n \<and> n \<le> 57 then Some (n - 48)
      else if 97 \<le> n \<and> n \<le> 102 then Some (n - 87)
      else if 65 \<le> n \<and> n \<le> 70 then Some (n - 55)
      else None)"

text \<open>Node decodes pairs of digits and stops at the first pair that is not hexadecimal.\<close>

fun from_hex :: "string \<Rightarrow> bytes" where
  "from_hex (c # d # cs) =
     (case (hexval c, hexval d) of
        (Some h, Some l) \<Rightarrow> word_of_nat (16 * h + l) # from_hex cs
      | _ \<Rightarrow> [])"
| "from_hex cs = []"

section \<open>Data model\<close>

text \<open>
  The objects of lib/block/blockheader.js. \<open>version\<close> is read with \<open>readInt32LE\<close> and
  \<open>time\<close>, \<open>bits\<close> and \<open>nonce\<close> with \<open>readUInt32LE\<close>: all four are 32-bit words (\<open>sint\<close>
  reads the signed one). \<open>auxpow_field\<close> is the property \<open>_auxpow\<close> and \<open>id_cache\<close> the
  memo \<open>_id\<close> (\<open>None\<close> is \<open>undefined\<close>); \<open>timestamp\<close> is a second copy of \<open>time\<close> and is
  left out. The coinbase transaction, the Merkle branches and the AuxPoW object are the
  object literals built in \<open>_parseAuxPoW\<close>; an output's \<open>Script\<close> (lib/script, not among
  the sources) is kept as the bytes it was built from.
\<close>

datatype txIn = TxIn
  (prevOutput_hash: bytes) (prevOutput_index: bytes)
  (txIn_scriptLen: nat) (txIn_script: bytes) (txIn_sequence: "32 word")

datatype txOut = TxOut (txOut_value: bytes) (txOut_scriptLen: nat) (txOut_script: bytes)

datatype txn = Txn
  (txn_version: "32 word") (txn_flag: nat)
  (txInCount: nat) (txIn: "txIn list")
  (txOutCount: nat) (txOut: "txOut list")
  (txWitnesses: "bytes list") (lockTime: "32 word")

datatype merkle_branch = MerkleBranch
  (branchLen: nat) (branchHashes: "bytes list") (branchSideMask: "32 word")

datatype header = BlockHeader
  (version: "32 word") (prevHash: bytes) (merkleRoot: bytes)
  (time: "32 word") (bits: "32 word") (nonce: "32 word")
  (auxpow_field: "auxpow option") (id_cache: "string option")
and auxpow = AuxPow
  (coinbaseTxn: txn) (blockHash: bytes)
  (coinbaseBranch: merkle_branch) (blockchainBranch: merkle_branch)
  (parentBlock: header)

section \<open>Difficulty and target\<close>

text \<open>
  \<open>getTargetDifficulty(bits)\<close>, lines 217-226. \<open>BN\<close> is an arbitrary-precision integer
  (\<open>int\<close>). The argument is optional (\<open>None\<close> is \<open>undefined\<close>), and \<open>bits || this.bits\<close>
  takes the header's own bits when the argument is \<open>undefined\<close> or 0. The loop
  \<open>while (mov-- > 0) target = target.mul(new BN(2))\<close> is \<open>doubling\<close>.
\<close>

function doubling :: "int \<Rightarrow> int \<Rightarrow> int" where
  "doubling mov target = (if mov > 0 then doubling (mov - 1) (target * 2) else target)"
  by pat_completeness auto
termination
  by (relation "measure (\<lambda>(mov, target). nat mov)") auto

declare doubling.simps [simp del]

definition getTargetDifficulty :: "header \<Rightarrow> 32 word option \<Rightarrow> int" where
  "getTargetDifficulty this bits_arg =
     (let bits0 = (case bits_arg of
                     None \<Rightarrow> bits this
                   | Some b \<Rightarrow> if b = 0 then bits this else b);
          target = uint (bits0 AND 0xffffff);
          mov = 8 * (int (unat (drop_bit 24 bits0)) - 3)
      in doubling mov target)"

text \<open>
  \<open>getDifficulty()\<close>, lines 232-252. A JavaScript number is an IEEE binary64 value; the
  values this function can return are the non-negative finite ones, kept as the rational
  they denote, and \<open>Infinity\<close> (the quotient when the low 24 bits are 0).

  \<^item> \<open>binary64_div p q\<close> is the quotient \<open>p / q\<close> of two positive integers rounded to a
    53-bit significand, to nearest with ties to even, which is what \<open>/\<close> and the
    decimal-to-number conversion of \<open>parseFloat\<close> compute. \<open>bitlength\<close> counts the
    binary digits, so \<open>e\<close> is the exponent of the quotient.
  \<^item> Multiplying and dividing by 256 is exact in binary64 as long as the result is a
    normal number. With an 8-bit exponent byte and a 24-bit mantissa the value stays
    below \<open>2 ^ 248\<close>, so nothing overflows; a value that falls below the normal range is
    below \<open>5 * 10 ^ -20\<close>, which \<open>toFixed(19)\<close> turns into 0 in binary64 and in this
    model alike.
  \<^item> \<open>x.toFixed(19)\<close> is the decimal \<open>n / 10 ^ 19\<close> with \<open>n\<close> the integer nearest to
    \<open>x * 10 ^ 19\<close> (the larger one on a tie), and for \<open>x \<ge> 10 ^ 21\<close> it is the shortest
    decimal that \<open>parseFloat\<close> reads back as \<open>x\<close>.
\<close>

datatype jsnumber = Finite rat | PosInfinity

function bitlength :: "int \<Rightarrow> nat" where
  "bitlength n = (if n \<le> 0 then 0 else Suc (bitlength (n div 2)))"
  by pat_completeness auto
termination
  by (relation "measure nat") auto

declare bitlength.simps [simp del]

definition round_half_even :: "int \<Rightarrow> int \<Rightarrow> int" where
  "round_half_even n d =
     (let f = n div d; r = n mod d in
      if 2 * r < d then f else if d < 2 * r then f + 1 else if even f then f else f + 1)"

definition binary64_div :: "int \<Rightarrow> int \<Rightarrow> rat" where
  "binary64_div p q =
     (let a = bitlength p; b = bitlength q;
          e = int a - int b - (if p * 2 ^ b < q * 2 ^ a then 1 else 0);
          s = e - 52
      in if 0 \<le> s then of_int (round_half_even p (q * 2 ^ nat s)) * 2 ^ nat s
         else of_int (round_half_even (p * 2 ^ nat (- s)) q) / 2 ^ nat (- s))"

definition parseFloat_toFixed19 :: "rat \<Rightarrow> rat" where
  "parseFloat_toFixed19 x =
     (if 10 ^ 21 \<le> x then x
      else let n = \<lfloor>x * 10 ^ 19 + 1 / 2\<rfloor> in
           if n = 0 then 0 else binary64_div n (10 ^ 19))"

function scale_up :: "nat \<Rightarrow> rat \<Rightarrow> nat \<times> rat" where
  "scale_up decimalShift difficulty =
     (if decimalShift < 29 then scale_up (decimalShift + 1) (difficulty * 256)
      else (decimalShift, difficulty))"
  by pat_completeness auto
termination
  by (relation "measure (\<lambda>(decimalShift, difficulty). 29 - decimalShift)") auto

function scale_down :: "nat \<Rightarrow> rat \<Rightarrow> nat \<times> rat" where
  "scale_down decimalShift difficulty =
     (if decimalShift > 29 then scale_down (decimalShift - 1) (difficulty / 256)
      else (decimalShift, difficulty))"
  by pat_completeness auto
termination
  by (relation "measure (\<lambda>(decimalShift, difficulty). decimalShift)") auto

declare scale_up.simps [simp del] scale_down.simps [simp del]

definition getDifficulty :: "header \<Rightarrow> jsnumber" where
  "getDifficulty this =
     (if bits this = 0 then Finite 1
      else
        let decimalShift = unat (drop_bit 24 (bits this) AND 0xff);
            mantissa = uint (bits this AND 0x00ffffff)
        in if mantissa = 0 then PosInfinity
           else
             let difficulty = binary64_div 0x0000ffff mantissa;
                 (decimalShift, difficulty) = scale_up decimalShift difficulty;
                 (decimalShift, difficulty) = scale_down decimalShift difficulty
             in Finite (parseFloat_toFixed19 difficulty))"

section \<open>External collaborators\<close>

text \<open>
  The collaborators whose code is not among the sources and whose behaviour the spec
  leaves open are parameters of the model: the varint read of the reader
  (\<open>br.readVarintNum()\<close>), the two hash primitives (\<open>Hash.sha256sha256\<close>, \<open>Hash.scrypt\<close>)
  and the encoder of the AuxPoW object (\<open>auxpow.toBufferWriter(bw)\<close>, which returns the
  writer with the payload appended, or throws).
\<close>

record externals =
  readVarintNum :: "nat parser"
  sha256sha256 :: "bytes \<Rightarrow> bytes"
  scrypt :: "bytes \<Rightarrow> bytes"
  auxpow_toBufferWriter :: "auxpow \<Rightarrow> bytes \<Rightarrow> error + bytes"

text \<open>
  Modelled from the spec: \<open>new BN(buffer)\<close> (lib/crypto/bn.js) is not among the sources;
  the spec has \<open>validProofOfWork\<close> read the digest as a little-endian unsigned integer.
\<close>

definition BN_fromBuffer :: "bytes \<Rightarrow> int" where
  "BN_fromBuffer b = int (le_nat b)"

section \<open>Encoding, hash and proof of work\<close>

text \<open>\<open>isAuxPow()\<close>, lines 321-325, and the getter \<open>auxpow\<close>, lines 327-339.\<close>

definition isAuxPow :: "header \<Rightarrow> bool" where
  "isAuxPow this = (version this AND push_bit 8 1 \<noteq> 0)"

definition auxpow :: "header \<Rightarrow> auxpow option" where
  "auxpow this = (if isAuxPow this then auxpow_field this else None)"

text \<open>
  \<open>toBufferWriter(bw, includeAuxPow)\<close>, lines 195-210, and \<open>toBuffer(includeAuxPow)\<close>,
  lines 179-181. Reading \<open>this.auxpow.toBufferWriter\<close> on a header whose \<open>_auxpow\<close> is
  \<open>undefined\<close> is a \<open>TypeError\<close>.
\<close>

definition toBufferWriter ::
  "externals \<Rightarrow> header \<Rightarrow> bytes option \<Rightarrow> bool \<Rightarrow> error + bytes" where
  "toBufferWriter X this bw includeAuxPow =
     (let bw = (case bw of None \<Rightarrow> [] | Some w \<Rightarrow> w);
          bw = writeInt32LE (version this) bw;
          bw = write_buf (prevHash this) bw;
          bw = write_buf (merkleRoot this) bw;
          bw = writeUInt32LE (time this) bw;
          bw = writeUInt32LE (bits this) bw;
          bw = writeUInt32LE (nonce this) bw
      in if includeAuxPow \<and> isAuxPow this
         then (case auxpow this of
                 None \<Rightarrow> Inl TypeError
               | Some a \<Rightarrow> auxpow_toBufferWriter X a bw)
         else Inr bw)"

definition toBuffer :: "externals \<Rightarrow> header \<Rightarrow> bool \<Rightarrow> error + bytes" where
  "toBuffer X this includeAuxPow = toBufferWriter X this None includeAuxPow"

text \<open>
  \<open>_getHash()\<close>, lines 257-260 (a leading underscore of the source is written \<open>priv_\<close>),
  and the getter of \<open>id\<close> and \<open>hash\<close>, lines 262-277: the memo \<open>_id\<close> is filled on the
  first read; \<open>!this._id\<close> holds for \<open>undefined\<close> and for the empty string. The getter
  returns the value and the header with its memo.
\<close>

definition priv_getHash :: "externals \<Rightarrow> header \<Rightarrow> error + bytes" where
  "priv_getHash X this =
     (case toBuffer X this False of Inl e \<Rightarrow> Inl e | Inr b \<Rightarrow> Inr (sha256sha256 X b))"

definition set_id_cache :: "string option \<Rightarrow> header \<Rightarrow> header" where
  "set_id_cache v this =
     BlockHeader (version this) (prevHash this) (merkleRoot this) (time this) (bits this)
       (nonce this) (auxpow_field this) v"

definition id_get :: "externals \<Rightarrow> header \<Rightarrow> error + string \<times> header" where
  "id_get X this =
     (if (case id_cache this of None \<Rightarrow> True | Some s \<Rightarrow> s = [])
      then (case priv_getHash X this of
              Inl e \<Rightarrow> Inl e
            | Inr h \<Rightarrow> let v = toString_hex (rev h) in Inr (v, set_id_cache (Some v) this))
      else Inr (the (id_cache this), this))"

text \<open>\<open>validProofOfWork()\<close>, lines 293-308.\<close>

definition validProofOfWork :: "externals \<Rightarrow> header \<Rightarrow> error + bool" where
  "validProofOfWork X this =
     (case (if isAuxPow this
            then (case auxpow this of
                    None \<Rightarrow> Inl TypeError
                  | Some a \<Rightarrow> toBuffer X (parentBlock a) True)
            else toBuffer X this True) of
        Inl e \<Rightarrow> Inl e
      | Inr hashBuf \<Rightarrow>
          let pow = BN_fromBuffer (scrypt X hashBuf);
              target = getTargetDifficulty this None
          in if pow > target then Inr False else Inr True)"

section \<open>Decoding and construction\<close>

text \<open>
  The coinbase transaction and the Merkle branches, as the closures \<open>getTxIn\<close>,
  \<open>getTxOut\<close>, \<open>getTxn\<close> and \<open>merkleBranch\<close> of \<open>_parseAuxPoW\<close> read them (lines 354-439).
  A loop \<open>for (i = 0; i < n; i++) xs.push(p())\<close> is \<open>repeat_r n p\<close>. The witness loop
  pushes the components of all inputs onto one list.
\<close>

fun repeat_r :: "nat \<Rightarrow> 'a parser \<Rightarrow> 'a list parser" where
  "repeat_r 0 p = return_r []"
| "repeat_r (Suc n) p = bind_r p (\<lambda>x. bind_r (repeat_r n p) (\<lambda>xs. return_r (x # xs)))"

definition getTxIn :: "externals \<Rightarrow> txIn parser" where
  "getTxIn X =
     bind_r (read 32) (\<lambda>hash.
     bind_r (read 4) (\<lambda>index.
     bind_r (readVarintNum X) (\<lambda>scriptLen.
     bind_r (read scriptLen) (\<lambda>script.
     bind_r readUInt32LE (\<lambda>sequence.
     return_r (TxIn hash index scriptLen script sequence))))))"

definition getTxOut :: "externals \<Rightarrow> txOut parser" where
  "getTxOut X =
     bind_r (read 8) (\<lambda>val.
     bind_r (readVarintNum X) (\<lambda>pkScriptLen.
     bind_r (read pkScriptLen) (\<lambda>pkScript.
     return_r (TxOut val pkScriptLen pkScript))))"

definition getWitnessComponents :: "externals \<Rightarrow> bytes list parser" where
  "getWitnessComponents X =
     bind_r (readVarintNum X) (\<lambda>componentCnt.
     repeat_r componentCnt
       (bind_r (readVarintNum X) (\<lambda>componentLen. read componentLen)))"

definition getTxn :: "externals \<Rightarrow> txn parser" where
  "getTxn X =
     bind_r readInt32LE (\<lambda>version.
     bind_r peekUInt16BE (\<lambda>next2.
     bind_r (if next2 = 1 then readUInt16BE else return_r 0) (\<lambda>flag.
     bind_r (readVarintNum X) (\<lambda>txInCount.
     bind_r (repeat_r txInCount (getTxIn X)) (\<lambda>txIn.
     bind_r (readVarintNum X) (\<lambda>txOutCount.
     bind_r (repeat_r txOutCount (getTxOut X)) (\<lambda>txOut.
     bind_r (if flag \<noteq> 0
             then bind_r (repeat_r txInCount (getWitnessComponents X))
                    (\<lambda>ws. return_r (concat ws))
             else return_r []) (\<lambda>txWitnesses.
     bind_r readUInt32LE (\<lambda>lockTime.
     return_r (Txn version flag txInCount txIn txOutCount txOut txWitnesses lockTime))))))))))"

definition merkleBranch :: "externals \<Rightarrow> merkle_branch parser" where
  "merkleBranch X =
     bind_r (readVarintNum X) (\<lambda>branchLen.
     bind_r (repeat_r branchLen (readReverse 32)) (\<lambda>branchHashes.
     bind_r readInt32LE (\<lambda>branchSideMask.
     return_r (MerkleBranch branchLen branchHashes branchSideMask))))"

text \<open>
  The argument of the constructor is a \<open>Buffer\<close>, an object or anything else. An object
  (\<open>field_map\<close>) carries \<open>prevHash\<close> and \<open>merkleRoot\<close> as a hex string or as a \<open>Buffer\<close>,
  and possibly a \<open>hash\<close>; \<open>info\<close> is the object that \<open>_from\<close> returns, with both as
  buffers. The numeric fields are typed as in the data model.
\<close>

datatype hash_arg = HexString string | Buffer bytes

record field_map =
  fm_hash :: "string option"
  fm_version :: "32 word"
  fm_prevHash :: hash_arg
  fm_merkleRoot :: hash_arg
  fm_time :: "32 word"
  fm_bits :: "32 word"
  fm_nonce :: "32 word"
  fm_auxpow :: "auxpow option"

record info =
  info_hash :: "string option"
  info_version :: "32 word"
  info_prevHash :: bytes
  info_merkleRoot :: bytes
  info_time :: "32 word"
  info_bits :: "32 word"
  info_nonce :: "32 word"
  info_auxpow :: "auxpow option"

datatype ctor_arg = ArgBuffer bytes | ArgObject field_map | ArgOther

text \<open>\<open>_fromObject(data)\<close>, lines 69-91.\<close>

definition priv_fromObject :: "field_map \<Rightarrow> info" where
  "priv_fromObject data =
     \<lparr>info_hash = fm_hash data,
      info_version = fm_version data,
      info_prevHash = (case fm_prevHash data of
                         HexString s \<Rightarrow> rev (from_hex s) | Buffer b \<Rightarrow> b),
      info_merkleRoot = (case fm_merkleRoot data of
                           HexString s \<Rightarrow> rev (from_hex s) | Buffer b \<Rightarrow> b),
      info_time = fm_time data,
      info_bits = fm_bits data,
      info_nonce = fm_nonce data,
      info_auxpow = fm_auxpow data\<rparr>"

text \<open>
  The body of the constructor after \<open>_from\<close>, lines 27-43: the fields are copied, the
  memo starts empty, and a truthy \<open>info.hash\<close> is compared with the computed \<open>hash\<close>
  (\<open>$.checkState\<close> throws the state error when they differ).
\<close>

definition BlockHeader_init :: "externals \<Rightarrow> info \<Rightarrow> error + header" where
  "BlockHeader_init X info =
     (let this = BlockHeader (info_version info) (info_prevHash info) (info_merkleRoot info)
                   (info_time info) (info_bits info) (info_nonce info) (info_auxpow info) None
      in case info_hash info of
           None \<Rightarrow> Inr this
         | Some h \<Rightarrow>
             if h = [] then Inr this
             else (case id_get X this of
                     Inl e \<Rightarrow> Inl e
                   | Inr (v, this') \<Rightarrow> if v = h then Inr this' else Inl StateMismatch))"

text \<open>Facts about the reads that the termination of the decoder rests on.\<close>

lemma bind_r_cong [fundef_cong]:
  "br = br' \<Longrightarrow> m br' = m' br' \<Longrightarrow> (\<And>x s. m' br' = Inr (x, s) \<Longrightarrow> f x s = f' x s) \<Longrightarrow>
   bind_r m f br = bind_r m' f' br'"
  by (auto simp: bind_r_def split: sum.splits)

lemma read_Inr:
  "read n br = Inr (x, s) \<Longrightarrow>
   length x = n \<and> x = take n (drop (pos br) (buf br)) \<and> buf s = buf br \<and>
   pos s = pos br + n \<and> pos br + n \<le> length (buf br)"
  by (auto simp: read_def split: if_splits)

lemma read_remaining:
  "read n br = Inr (x, s) \<Longrightarrow> remaining br = remaining s + n"
  by (auto simp: read_def remaining_def split: if_splits)

lemma readUInt32LE_remaining:
  "readUInt32LE br = Inr (x, s) \<Longrightarrow> remaining br = remaining s + 4"
  by (auto simp: readUInt32LE_def bind_r_def return_r_def split: sum.splits
      dest: read_remaining)

lemma readInt32LE_remaining:
  "readInt32LE br = Inr (x, s) \<Longrightarrow> remaining br = remaining s + 4"
  by (auto simp: readInt32LE_def bind_r_def return_r_def split: sum.splits
      dest: read_remaining)

lemma getTxn_remaining:
  "getTxn X br = Inr (x, s) \<Longrightarrow> 4 \<le> remaining br"
  by (auto simp: getTxn_def bind_r_def [of readInt32LE] split: sum.splits
      dest: readInt32LE_remaining)

text \<open>
  \<open>_from(arg)\<close>, lines 52-62; \<open>_fromBufferReader(br)\<close>, lines 139-149; the constructor
  \<open>BlockHeader(arg)\<close>, lines 22-44.

  Modelled from the spec: the constructor \<open>AuxPow(info, br)\<close> (lib/block/auxpow.js) is not
  among the sources. By the spec (section 4.1) the header decoder decodes an AuxPoW from
  the remaining stream only if \<open>version & 0x100\<close>, and (section 4.2) the decode consumes
  one transaction, 32 raw bytes, two Merkle branches and 80 bytes read as a nested header.
  \<open>AuxPow_new\<close> takes these steps from \<open>_parseAuxPoW\<close> (lines 346-455), which the source
  has: the test of bit 8, \<open>getTxn\<close>, \<open>read(32)\<close>, \<open>merkleBranch\<close> twice, \<open>read(80)\<close> and
  \<open>new BlockHeader(parentBlock)\<close>; the object that \<open>_parseAuxPoW\<close> builds is the result
  that \<open>_fromBufferReader\<close> stores in \<open>info.auxpow\<close>, and \<open>None\<close> is the result when the
  bit is not set.

  The four functions call each other: the parent header is built by the constructor from
  the 80 bytes just read, which is a shorter buffer than the one being decoded.
\<close>

function priv_from :: "externals \<Rightarrow> ctor_arg \<Rightarrow> error + info"
  and priv_fromBufferReader :: "externals \<Rightarrow> info parser"
  and AuxPow_new :: "externals \<Rightarrow> 32 word \<Rightarrow> auxpow option parser"
  and BlockHeader_new :: "externals \<Rightarrow> ctor_arg \<Rightarrow> error + header"
where
  "priv_from X arg =
     (case arg of
        ArgBuffer b \<Rightarrow>
          (case priv_fromBufferReader X (BufferReader b) of
             Inl e \<Rightarrow> Inl e
           | Inr (info, br) \<Rightarrow> Inr info)
      | ArgObject data \<Rightarrow> Inr (priv_fromObject data)
      | ArgOther \<Rightarrow> Inl MalformedInput)"
| "priv_fromBufferReader X br =
     bind_r readInt32LE (\<lambda>version.
     bind_r (read 32) (\<lambda>prevHash.
     bind_r (read 32) (\<lambda>merkleRoot.
     bind_r readUInt32LE (\<lambda>time.
     bind_r readUInt32LE (\<lambda>bits.
     bind_r readUInt32LE (\<lambda>nonce.
     bind_r (AuxPow_new X version) (\<lambda>auxpow.
     return_r \<lparr>info_hash = None, info_version = version, info_prevHash = prevHash,
               info_merkleRoot = merkleRoot, info_time = time, info_bits = bits,
               info_nonce = nonce, info_auxpow = auxpow\<rparr>))))))) br"
| "AuxPow_new X ver br =
     (if ver AND push_bit 8 1 = 0 then Inr (None, br)
      else
        bind_r (getTxn X) (\<lambda>coinbaseTxn.
        bind_r (read 32) (\<lambda>blockHash.
        bind_r (merkleBranch X) (\<lambda>coinbaseBranch.
        bind_r (merkleBranch X) (\<lambda>blockchainBranch.
        bind_r (read 80) (\<lambda>parentBlock br'.
          case BlockHeader_new X (ArgBuffer parentBlock) of
            Inl e \<Rightarrow> Inl e
          | Inr parent \<Rightarrow>
              Inr (Some (AuxPow coinbaseTxn blockHash coinbaseBranch blockchainBranch parent),
                   br')))))) br)"
| "BlockHeader_new X arg =
     (case priv_from X arg of
        Inl e \<Rightarrow> Inl e
      | Inr info \<Rightarrow> BlockHeader_init X info)"
  by pat_completeness auto
termination
proof (relation "measure (\<lambda>x. case x of
            Inl (Inl (X, arg)) \<Rightarrow> (case arg of ArgBuffer b \<Rightarrow> 3 * length b + 5 | _ \<Rightarrow> 0)
          | Inl (Inr (X, br)) \<Rightarrow> 3 * remaining br + 4
          | Inr (Inl (X, v, br)) \<Rightarrow> 3 * (80 + remaining br) + 3
          | Inr (Inr (X, arg)) \<Rightarrow> (case arg of ArgBuffer b \<Rightarrow> 3 * length b + 6 | _ \<Rightarrow> 1))",
    goal_cases)
  case 1
  show ?case by simp
next
  case (2 X arg b)
  then show ?case by (simp add: remaining_def BufferReader_def)
next
  case (3 X br version s prevHash sa merkleRoot sb time sc bits sd nonce se)
  then show ?case
    by (auto dest!: read_remaining readUInt32LE_remaining readInt32LE_remaining)
next
  case (4 X ver br coinbaseTxn s blockHash sa coinbaseBranch sb blockchainBranch sc parentBlock sd)
  from 4(2) have "4 \<le> remaining br" by (rule getTxn_remaining)
  moreover from 4(6) have "length parentBlock = 80" by (simp add: read_Inr)
  ultimately show ?case by simp
next
  case (5 X arg)
  show ?case by (simp split: ctor_arg.splits)
qed

declare priv_from.simps [simp del] priv_fromBufferReader.simps [simp del]
  AuxPow_new.simps [simp del] BlockHeader_new.simps [simp del]

text \<open>
  The static constructors \<open>fromBuffer(buf)\<close>, lines 120-123, and \<open>fromObject(obj)\<close>, lines
  97-100: each passes the \<open>info\<close> object it computed to the constructor, which reads it as
  an object again.
\<close>

definition as_object :: "info \<Rightarrow> field_map" where
  "as_object info =
     \<lparr>fm_hash = info_hash info, fm_version = info_version info,
      fm_prevHash = Buffer (info_prevHash info), fm_merkleRoot = Buffer (info_merkleRoot info),
      fm_time = info_time info, fm_bits = info_bits info, fm_nonce = info_nonce info,
      fm_auxpow = info_auxpow info\<rparr>"

definition fromBuffer :: "externals \<Rightarrow> bytes \<Rightarrow> error + header" where
  "fromBuffer X b =
     (case priv_fromBufferReader X (BufferReader b) of
        Inl e \<Rightarrow> Inl e
      | Inr (info, br) \<Rightarrow> BlockHeader_new X (ArgObject (as_object info)))"

definition fromObject :: "externals \<Rightarrow> field_map \<Rightarrow> error + header" where
  "fromObject X obj = BlockHeader_new X (ArgObject (as_object (priv_fromObject obj)))"

section \<open>Notions used in the statements\<close>

text \<open>
  The encoding of the six fixed fields in the layout of the wire format, the memo of a
  header being either empty or the hash of its fields, and the hash that a field map
  yields without its \<open>hash\<close> entry.
\<close>

definition fixed_encoding :: "header \<Rightarrow> bytes" where
  "fixed_encoding this =
     le_bytes 4 (unat (version this)) @ prevHash this @ merkleRoot this @
     le_bytes 4 (unat (time this)) @ le_bytes 4 (unat (bits this)) @
     le_bytes 4 (unat (nonce this))"

definition memo_ok :: "externals \<Rightarrow> header \<Rightarrow> bool" where
  "memo_ok X this =
     (case id_cache this of
        None \<Rightarrow> True
      | Some s \<Rightarrow> s = toString_hex (rev (sha256sha256 X (fixed_encoding this))))"

definition computed_hash :: "externals \<Rightarrow> field_map \<Rightarrow> string" where
  "computed_hash X data = toString_hex (rev (sha256sha256 X (fixed_encoding
      (BlockHeader (fm_version data) (info_prevHash (priv_fromObject data))
         (info_merkleRoot (priv_fromObject data)) (fm_time data) (fm_bits data) (fm_nonce data)
         (fm_auxpow data) None))))"

text \<open>
  The fields of a header as they lie in the first 80 bytes of a buffer (the layout of the
  wire format), the header object built from an \<open>info\<close>, and a header without AuxPoW
  whose two hashes have 32 bytes.
\<close>

definition header_fields :: "bytes \<Rightarrow> auxpow option \<Rightarrow> info" where
  "header_fields b a =
     \<lparr>info_hash = None,
      info_version = word_of_nat (le_nat (take 4 b)),
      info_prevHash = take 32 (drop 4 b),
      info_merkleRoot = take 32 (drop 36 b),
      info_time = word_of_nat (le_nat (take 4 (drop 68 b))),
      info_bits = word_of_nat (le_nat (take 4 (drop 72 b))),
      info_nonce = word_of_nat (le_nat (take 4 (drop 76 b))),
      info_auxpow = a\<rparr>"

definition header_of :: "info \<Rightarrow> header" where
  "header_of info =
     BlockHeader (info_version info) (info_prevHash info) (info_merkleRoot info)
       (info_time info) (info_bits info) (info_nonce info) (info_auxpow info) None"

definition plain_header :: "header \<Rightarrow> bool" where
  "plain_header this =
     (\<not> isAuxPow this \<and> length (prevHash this) = 32 \<and> length (merkleRoot this) = 32)"

text \<open>
  A concrete AuxPoW block for the examples: a header with bit 8 set, a coinbase transaction
  with one input and one output, the block hash, a coinbase branch of one hash, an empty
  blockchain branch and a parent header; \<open>example_header\<close> is what it decodes to.
  \<open>example_externals\<close> is an instance of the collaborators: varints of one byte, stand-in
  digests (the first 32 bytes of the input, padded with zeros) and an AuxPoW encoder that
  writes the payload of the example block. The theorems hold for every instance.
\<close>

definition example_parent :: bytes where
  "example_parent = [2, 0, 0, 0] @ replicate 32 0 @ replicate 32 0 @ [0, 0, 0, 0] @ [0, 0, 0, 0] @ [0, 0, 0, 0]"

definition example_payload :: bytes where
  "example_payload =
     [1, 0, 0, 0] @ [1] @ replicate 32 3 @ [0xff, 0xff, 0xff, 0xff] @ [2] @ [0x51, 0x52] @ [0, 0, 0, 0] @
     [1] @ [0, 0, 0, 0, 0, 0, 0, 0] @ [1] @ [0x6a] @ [0, 0, 0, 0] @
     replicate 32 7 @
     [1] @ (1 # replicate 31 0) @ [0, 0, 0, 0] @
     [0] @ [0, 0, 0, 0] @
     example_parent"

definition example_block :: bytes where
  "example_block =
     [0, 1, 0, 0] @ replicate 32 0 @ replicate 32 0 @ [0, 0, 0, 0] @ [0xf0, 0xff, 0x0f, 0x1e] @ [0, 0, 0, 0] @
     example_payload"

definition example_header :: header where
  "example_header =
     BlockHeader 256 (replicate 32 0) (replicate 32 0) 0 0x1e0ffff0 0
       (Some (AuxPow
          (Txn 1 0 1 [TxIn (replicate 32 3) [0xff, 0xff, 0xff, 0xff] 2 [0x51, 0x52] 0]
             1 [TxOut [0, 0, 0, 0, 0, 0, 0, 0] 1 [0x6a]] [] 0)
          (replicate 32 7)
          (MerkleBranch 1 [replicate 31 0 @ [1]] 0)
          (MerkleBranch 0 [] 0)
          (BlockHeader 2 (replicate 32 0) (replicate 32 0) 0 0 0 None None)))
       None"

definition example_externals :: externals where
  "example_externals =
     \<lparr>readVarintNum = bind_r (read 1) (\<lambda>b. return_r (le_nat b)),
      sha256sha256 = (\<lambda>b. take 32 (b @ replicate 32 0)),
      scrypt = (\<lambda>b. take 32 (b @ replicate 32 0)),
      auxpow_toBufferWriter = (\<lambda>a bw. Inr (bw @ example_payload))\<rparr>"

section \<open>Properties of the target\<close>

lemma doubling_eq: "doubling mov target = target * 2 ^ nat mov"
proof (induction mov target rule: doubling.induct)
  case (1 mov target)
  show ?case
  proof (cases "mov > 0")
    case True
    then have "nat mov = Suc (nat (mov - 1))" by simp
    with True 1 show ?thesis by (simp add: doubling.simps [of mov])
  next
    case False
    then show ?thesis by (simp add: doubling.simps [of mov])
  qed
qed

lemma getTargetDifficulty_explicit:
  "b \<noteq> 0 \<Longrightarrow>
   getTargetDifficulty this (Some b) =
     uint (b AND 0xffffff) * 2 ^ nat (8 * (int (unat (drop_bit 24 b)) - 3))"
  by (simp add: getTargetDifficulty_def doubling_eq)

lemma getTargetDifficulty_own:
  "getTargetDifficulty this None =
     uint (bits this AND 0xffffff) * 2 ^ nat (8 * (int (unat (drop_bit 24 (bits this))) - 3))"
  by (simp add: getTargetDifficulty_def doubling_eq Let_def)

lemma exponent_byte: "drop_bit 24 (b :: 32 word) AND 0xff = drop_bit 24 b"
proof -
  have "(0xff :: 32 word) = mask 8" by (simp add: mask_eq_exp_minus_1)
  then show ?thesis
    by (simp add: bit_eq_iff bit_simps) (auto dest: bit_imp_le_length)
qed

text \<open>
  C4. For a 32-bit \<open>bits\<close> with nonzero low 24 bits, \<open>getTargetDifficulty(bits)\<close> is the
  mantissa \<open>bits & 0xFFFFFF\<close> shifted left by \<open>8 * (((bits >> 24) & 0xFF) - 3)\<close> bit
  positions; when that count is negative nothing is shifted and the result is the
  mantissa. The value reached by doubling is that of the shift (\<open>push_bit\<close>), which is
  the mantissa times the power of two.
\<close>

theorem getTargetDifficulty_is_shift:
  fixes b :: "32 word"
  assumes "b AND 0xffffff \<noteq> 0"
  defines "mantissa \<equiv> uint (b AND 0xffffff)"
  defines "shift \<equiv> 8 * (int (unat (drop_bit 24 b AND 0xff)) - 3)"
  shows "getTargetDifficulty this (Some b) =
           (if shift < 0 then mantissa else push_bit (nat shift) mantissa) \<and>
         getTargetDifficulty this (Some b) = mantissa * 2 ^ nat shift"
proof -
  from assms(1) have "b \<noteq> 0" by auto
  then have "getTargetDifficulty this (Some b) = mantissa * 2 ^ nat shift"
    by (simp add: getTargetDifficulty_explicit mantissa_def shift_def exponent_byte)
  then show ?thesis
    by (simp add: push_bit_eq_mult)
qed

theorem getTargetDifficulty_is_shift_witness:
  "(0x1e0ffff0 :: 32 word) AND 0xffffff \<noteq> 0 \<and>
   getTargetDifficulty (BlockHeader 1 [] [] 0 0 0 None None) (Some 0x1e0ffff0) =
     push_bit 216 1048560 \<and>
   (0x020000ff :: 32 word) AND 0xffffff \<noteq> 0 \<and>
   getTargetDifficulty (BlockHeader 1 [] [] 0 0 0 None None) (Some 0x020000ff) = 255"
proof -
  have a: "(0x1e0ffff0 :: 32 word) AND 0xffffff \<noteq> 0" by simp
  have b: "(0x020000ff :: 32 word) AND 0xffffff \<noteq> 0" by simp
  show ?thesis
    using getTargetDifficulty_is_shift [OF a, of "BlockHeader 1 [] [] 0 0 0 None None"]
      getTargetDifficulty_is_shift [OF b, of "BlockHeader 1 [] [] 0 0 0 None None"]
    by (simp add: drop_bit_eq_div)
qed

text \<open>
  C6, as stated, fails below exponent 3: the loop never shifts right, so the compact
  values \<open>0x01000001\<close> and \<open>0x02000001\<close> (equal mantissa 1, exponents 1 and 2) both have
  target 1.
\<close>

theorem target_ratio_counterexample:
  "(0x02000001 :: 32 word) AND 0xffffff = (0x01000001 :: 32 word) AND 0xffffff \<and>
   unat (drop_bit 24 (0x02000001 :: 32 word)) = unat (drop_bit 24 (0x01000001 :: 32 word)) + 1 \<and>
   getTargetDifficulty (BlockHeader 1 [] [] 0 0 0 None None) (Some 0x01000001) = 1 \<and>
   getTargetDifficulty (BlockHeader 1 [] [] 0 0 0 None None) (Some 0x02000001) = 1 \<and>
   getTargetDifficulty (BlockHeader 1 [] [] 0 0 0 None None) (Some 0x02000001) \<noteq>
     256 * getTargetDifficulty (BlockHeader 1 [] [] 0 0 0 None None) (Some 0x01000001)"
  by (simp add: getTargetDifficulty_explicit drop_bit_eq_div)

text \<open>
  C6, amended. For two 32-bit \<open>bits\<close> values with equal mantissa whose exponent bytes
  differ by exactly 1, where the smaller exponent is at least 3, the target of the value
  with the larger exponent is exactly 256 times the target of the other; this holds for
  the explicit argument and for the header's own \<open>bits\<close>.
\<close>

theorem target_ratio_256:
  fixes b1 b2 :: "32 word"
  assumes "b1 AND 0xffffff = b2 AND 0xffffff"
    and "unat (drop_bit 24 b2) = unat (drop_bit 24 b1) + 1"
    and "3 \<le> unat (drop_bit 24 b1)"
  shows "getTargetDifficulty this (Some b2) = 256 * getTargetDifficulty this (Some b1) \<and>
         getTargetDifficulty (BlockHeader v2 p2 m2 t2 b2 n2 a2 c2) None =
           256 * getTargetDifficulty (BlockHeader v1 p1 m1 t1 b1 n1 a1 c1) None"
proof -
  define e1 where "e1 = unat (drop_bit 24 b1)"
  define e2 where "e2 = unat (drop_bit 24 b2)"
  have e: "e2 = e1 + 1" "3 \<le> e1"
    using assms(2,3) by (simp_all add: e1_def e2_def)
  from assms(3) have nz1: "b1 \<noteq> 0" by auto
  from assms(2) have nz2: "b2 \<noteq> 0" by auto
  from e have "nat (8 * (int e2 - 3)) = 8 + nat (8 * (int e1 - 3))"
    by simp
  then have pow: "(2 :: int) ^ nat (8 * (int e2 - 3)) = 256 * 2 ^ nat (8 * (int e1 - 3))"
    by (simp add: power_add)
  have t1: "getTargetDifficulty this (Some b1) = uint (b1 AND 0xffffff) * 2 ^ nat (8 * (int e1 - 3))"
    unfolding e1_def by (rule getTargetDifficulty_explicit [OF nz1])
  have t2: "getTargetDifficulty this (Some b2) = uint (b2 AND 0xffffff) * 2 ^ nat (8 * (int e2 - 3))"
    unfolding e2_def by (rule getTargetDifficulty_explicit [OF nz2])
  have o1: "getTargetDifficulty (BlockHeader v1 p1 m1 t1 b1 n1 a1 c1) None =
      uint (b1 AND 0xffffff) * 2 ^ nat (8 * (int e1 - 3))"
    and o2: "getTargetDifficulty (BlockHeader v2 p2 m2 t2 b2 n2 a2 c2) None =
      uint (b2 AND 0xffffff) * 2 ^ nat (8 * (int e2 - 3))"
    by (simp_all only: getTargetDifficulty_own e1_def e2_def header.sel)
  show ?thesis
    unfolding t1 t2 o1 o2 pow assms(1) by simp
qed

theorem target_ratio_256_witness:
  "(0x1d00ffff :: 32 word) AND 0xffffff = (0x1e00ffff :: 32 word) AND 0xffffff \<and>
   unat (drop_bit 24 (0x1e00ffff :: 32 word)) = unat (drop_bit 24 (0x1d00ffff :: 32 word)) + 1 \<and>
   3 \<le> unat (drop_bit 24 (0x1d00ffff :: 32 word)) \<and>
   getTargetDifficulty (BlockHeader 1 [] [] 0 0 0 None None) (Some 0x1e00ffff) =
     256 * getTargetDifficulty (BlockHeader 1 [] [] 0 0 0 None None) (Some 0x1d00ffff) \<and>
   getTargetDifficulty (BlockHeader 1 [] [] 0 0x1e00ffff 0 None None) None =
     256 * getTargetDifficulty (BlockHeader 1 [] [] 0 0x1d00ffff 0 None None) None"
proof -
  have a: "(0x1d00ffff :: 32 word) AND 0xffffff = (0x1e00ffff :: 32 word) AND 0xffffff"
    by simp
  have b: "unat (drop_bit 24 (0x1e00ffff :: 32 word)) =
      unat (drop_bit 24 (0x1d00ffff :: 32 word)) + 1"
    by (simp add: drop_bit_eq_div)
  have c: "3 \<le> unat (drop_bit 24 (0x1d00ffff :: 32 word))"
    by (simp add: drop_bit_eq_div)
  show ?thesis
    using a b c target_ratio_256 [OF a b c]
    by blast
qed

text \<open>
  C10. An explicit argument 0 is taken as no argument: \<open>getTargetDifficulty(0)\<close> is the
  target of the header's own \<open>bits\<close>, the same as \<open>getTargetDifficulty()\<close> and
  \<open>getTargetDifficulty(this.bits)\<close>, whatever the header's bits are.
\<close>

theorem getTargetDifficulty_zero_argument:
  "getTargetDifficulty this (Some 0) = getTargetDifficulty this (Some (bits this)) \<and>
   getTargetDifficulty this (Some 0) = getTargetDifficulty this None"
  by (simp add: getTargetDifficulty_def)

theorem getTargetDifficulty_zero_argument_witness:
  "getTargetDifficulty (BlockHeader 1 [] [] 0 0x1e0ffff0 0 None None) (Some 0) =
     1048560 * 2 ^ 216"
  using getTargetDifficulty_zero_argument [of "BlockHeader 1 [] [] 0 0x1e0ffff0 0 None None"]
  by (simp add: getTargetDifficulty_explicit drop_bit_eq_div)

section \<open>Properties of the difficulty\<close>

lemma scale_up_eq: "scale_up s d = (max s 29, d * 256 ^ (29 - s))"
proof (induction s d rule: scale_up.induct)
  case (1 s d)
  show ?case
  proof (cases "s < 29")
    case True
    then have "29 - s = Suc (29 - (s + 1))" by simp
    with True 1 show ?thesis by (simp add: scale_up.simps [of s])
  next
    case False
    then show ?thesis by (simp add: scale_up.simps [of s])
  qed
qed

lemma scale_down_eq: "scale_down s d = (min s 29, d / 256 ^ (s - 29))"
proof (induction s d rule: scale_down.induct)
  case (1 s d)
  show ?case
  proof (cases "s > 29")
    case True
    then have "s - 29 = Suc (s - 1 - 29)" by simp
    with True 1 show ?thesis by (simp add: scale_down.simps [of s])
  next
    case False
    then show ?thesis by (simp add: scale_down.simps [of s])
  qed
qed

lemma getDifficulty_closed_form:
  assumes "b AND 0xffffff \<noteq> 0"
  shows "getDifficulty (BlockHeader v p m t b n a c) =
     Finite (parseFloat_toFixed19
       (binary64_div 65535 (uint (b AND 0xffffff))
          * 256 ^ (29 - unat (drop_bit 24 b)) / 256 ^ (unat (drop_bit 24 b) - 29)))"
proof -
  from assms have "b \<noteq> 0" by auto
  moreover from assms have "uint (b AND 0xffffff) \<noteq> 0" by (simp add: uint_0_iff)
  moreover have "max (unat (drop_bit 24 b)) 29 - 29 = unat (drop_bit 24 b) - 29" by simp
  ultimately show ?thesis
    by (simp add: getDifficulty_def exponent_byte scale_up_eq scale_down_eq Let_def)
qed

lemma bitlength_65535: "bitlength 65535 = 16"
  by (simp add: bitlength.simps)

lemma bitlength_1048560: "bitlength 1048560 = 20"
  by (simp add: bitlength.simps)

lemma binary64_div_genesis: "binary64_div 65535 1048560 = 1 / 16"
  by (simp add: binary64_div_def bitlength_65535 bitlength_1048560 round_half_even_def)

lemma bitlength_toFixed: "bitlength 2441406250000000 = 52" "bitlength 10000000000000000000 = 64"
  by (simp_all add: bitlength.simps)

lemma binary64_div_toFixed: "binary64_div 2441406250000000 10000000000000000000 = 1 / 4096"
  by (simp add: binary64_div_def bitlength_toFixed round_half_even_def)

lemma toFixed_genesis: "\<lfloor>(1 / 4096 :: rat) * 10 ^ 19 + 1 / 2\<rfloor> = 2441406250000000"
  by (rule floor_unique) simp_all

lemma parseFloat_toFixed19_genesis: "parseFloat_toFixed19 (1 / 4096) = 1 / 4096"
  unfolding parseFloat_toFixed19_def toFixed_genesis by (simp add: binary64_div_toFixed)

lemma getDifficulty_genesis:
  "getDifficulty (BlockHeader v p m t 0x1e0ffff0 n a c) = Finite (1 / 4096)"
proof -
  have "(0x1e0ffff0 :: 32 word) AND 0xffffff \<noteq> 0" by simp
  from getDifficulty_closed_form [OF this] show ?thesis
    by (simp add: drop_bit_eq_div binary64_div_genesis parseFloat_toFixed19_genesis)
qed

text \<open>
  C5, as stated, fails at the reference value: for \<open>bits = 0x1e0ffff0\<close> the quotient is
  \<open>65535 / 1048560 = 1 / 16\<close>, the exponent byte is 30, one division by 256 follows, and
  the result is \<open>1 / 4096 = 0.000244140625\<close>, which is not approximately 1.0.
\<close>

theorem getDifficulty_genesis_counterexample:
  "getDifficulty (BlockHeader 1 [] [] 0 0x1e0ffff0 0 None None) = Finite (1 / 4096) \<and>
   \<bar>(1 / 4096 :: rat) - 1\<bar> > 999 / 1000"
  by (simp add: getDifficulty_genesis)

text \<open>
  C5, amended. \<open>getDifficulty()\<close> returns exactly 1.0 when \<open>bits\<close> is 0, and exactly
  \<open>0.000244140625\<close> (\<open>2 ^ -12\<close>) for \<open>bits = 0x1e0ffff0\<close>. For \<open>bits\<close> with nonzero low
  24 bits it is \<open>0x0000FFFF\<close> divided by the low 24 bits, multiplied by 256 once for every
  step the exponent byte is below 29 and divided by 256 once for every step it is above,
  then rounded to 19 decimal digits.
\<close>

theorem getDifficulty_reference:
  "getDifficulty (BlockHeader v p m t 0 n a c) = Finite 1 \<and>
   getDifficulty (BlockHeader v p m t 0x1e0ffff0 n a c) = Finite (1 / 4096) \<and>
   (b AND 0xffffff \<noteq> 0 \<longrightarrow>
    getDifficulty (BlockHeader v p m t b n a c) =
     Finite (parseFloat_toFixed19
       (binary64_div 0x0000ffff (uint (b AND 0xffffff))
          * 256 ^ (29 - unat (drop_bit 24 b AND 0xff))
          / 256 ^ (unat (drop_bit 24 b AND 0xff) - 29))))"
  using getDifficulty_closed_form [of b v p m t n a c]
  by (simp add: getDifficulty_genesis exponent_byte) (simp add: getDifficulty_def)

lemma bitlength_one: "bitlength 10000000000000000000 = 64" "bitlength 65535 = 16"
  by (simp_all add: bitlength.simps)

theorem getDifficulty_reference_witness:
  "getDifficulty (BlockHeader 1 [] [] 0 0 0 None None) = Finite 1 \<and>
   getDifficulty (BlockHeader 1 [] [] 0 0x1e0ffff0 0 None None) = Finite (1 / 4096) \<and>
   (0x1d00ffff :: 32 word) AND 0xffffff \<noteq> 0 \<and>
   getDifficulty (BlockHeader 1 [] [] 0 0x1d00ffff 0 None None) = Finite 1"
proof -
  have a: "(0x1d00ffff :: 32 word) AND 0xffffff \<noteq> 0" by simp
  have b: "binary64_div 65535 65535 = 1"
    by (simp add: binary64_div_def bitlength_one round_half_even_def)
  have c: "\<lfloor>(1 :: rat) * 10 ^ 19 + 1 / 2\<rfloor> = 10000000000000000000"
    by (rule floor_unique) simp_all
  have d: "binary64_div 10000000000000000000 10000000000000000000 = 1"
    by (simp add: binary64_div_def bitlength_one round_half_even_def)
  have e: "parseFloat_toFixed19 1 = 1"
    using c by (simp add: parseFloat_toFixed19_def d)
  show ?thesis
    using a getDifficulty_reference [of 1 "[]" "[]" 0 0 None None "0x1d00ffff"]
    by (simp add: drop_bit_eq_div b e)
qed

section \<open>The identity hash\<close>

lemma length_le_bytes [simp]: "length (le_bytes n v) = n"
  by (induction n arbitrary: v) auto

lemma toBuffer_False: "toBuffer X this False = Inr (fixed_encoding this)"
  by (simp add: toBuffer_def toBufferWriter_def fixed_encoding_def writeInt32LE_def
      writeUInt32LE_def write_buf_def)

lemma toBuffer_plain:
  "\<not> isAuxPow this \<Longrightarrow> toBuffer X this includeAuxPow = Inr (fixed_encoding this)"
  by (simp add: toBuffer_def toBufferWriter_def fixed_encoding_def writeInt32LE_def
      writeUInt32LE_def write_buf_def)

lemma length_fixed_encoding:
  "length (fixed_encoding this) = 16 + length (prevHash this) + length (merkleRoot this)"
  by (simp add: fixed_encoding_def)

lemma priv_getHash_eq: "priv_getHash X this = Inr (sha256sha256 X (fixed_encoding this))"
  by (simp add: priv_getHash_def toBuffer_False)

lemma fixed_encoding_set_id_cache [simp]:
  "fixed_encoding (set_id_cache v this) = fixed_encoding this"
  by (simp add: fixed_encoding_def set_id_cache_def)

lemma id_cache_set_id_cache [simp]: "id_cache (set_id_cache v this) = v"
  by (simp add: set_id_cache_def)

lemma id_get_memo_ok:
  assumes "memo_ok X this"
  shows "id_get X this =
     Inr (toString_hex (rev (sha256sha256 X (fixed_encoding this))),
          set_id_cache (Some (toString_hex (rev (sha256sha256 X (fixed_encoding this))))) this)"
proof (cases "id_cache this")
  case None
  then show ?thesis by (simp add: id_get_def priv_getHash_eq Let_def)
next
  case (Some s)
  with assms have s: "s = toString_hex (rev (sha256sha256 X (fixed_encoding this)))"
    by (simp add: memo_ok_def)
  have "set_id_cache (Some s) this = this"
    using Some by (cases this) (simp add: set_id_cache_def)
  with Some s show ?thesis
    by (auto simp: id_get_def priv_getHash_eq)
qed

lemma memo_ok_set_id_cache:
  "memo_ok X (set_id_cache (Some (toString_hex (rev (sha256sha256 X (fixed_encoding this))))) this)"
  by (simp add: memo_ok_def)

lemma BlockHeader_init_memo_ok:
  "BlockHeader_init X info = Inr this \<Longrightarrow> memo_ok X this"
  by (auto simp: BlockHeader_init_def Let_def id_get_def priv_getHash_eq memo_ok_def set_id_cache_def
      fixed_encoding_def split: option.splits if_splits)

lemma BlockHeader_new_memo_ok:
  "BlockHeader_new X arg = Inr this \<Longrightarrow> memo_ok X this"
  by (auto simp: BlockHeader_new.simps split: sum.splits dest: BlockHeader_init_memo_ok)

text \<open>
  C2. The hash of a header is a function of the six fixed fields only: \<open>_getHash\<close> is the
  digest of their encoding, which never contains the AuxPoW, and two headers with the
  same fixed fields have the same \<open>hash\<close>/\<open>id\<close>, whatever their \<open>_auxpow\<close> is. The memo
  of a constructed header is empty or holds that hash (\<open>BlockHeader_new_memo_ok\<close>).
\<close>

theorem hash_of_fixed_fields_only:
  assumes "version h1 = version h2" and "prevHash h1 = prevHash h2"
    and "merkleRoot h1 = merkleRoot h2" and "time h1 = time h2"
    and "bits h1 = bits h2" and "nonce h1 = nonce h2"
    and "memo_ok X h1" and "memo_ok X h2"
  shows "priv_getHash X h1 = Inr (sha256sha256 X (fixed_encoding h1)) \<and>
         priv_getHash X h2 = priv_getHash X h1 \<and>
         (\<exists>v h1' h2'. id_get X h1 = Inr (v, h1') \<and> id_get X h2 = Inr (v, h2') \<and>
            v = toString_hex (rev (sha256sha256 X (fixed_encoding h1))))"
proof -
  from assms(1-6) have "fixed_encoding h2 = fixed_encoding h1"
    by (simp add: fixed_encoding_def)
  then show ?thesis
    by (simp add: priv_getHash_eq id_get_memo_ok [OF assms(7)] id_get_memo_ok [OF assms(8)])
qed


lemma BlockHeader_new_object:
  "BlockHeader_new X (ArgObject data) = BlockHeader_init X (priv_fromObject data)"
  by (simp add: BlockHeader_new.simps priv_from.simps)

lemma BlockHeader_new_without_hash:
  "fm_hash data = None \<or> fm_hash data = Some [] \<Longrightarrow>
   BlockHeader_new X (ArgObject data) =
     Inr (BlockHeader (fm_version data) (info_prevHash (priv_fromObject data))
         (info_merkleRoot (priv_fromObject data)) (fm_time data) (fm_bits data) (fm_nonce data)
         (fm_auxpow data) None)"
  by (auto simp: BlockHeader_new_object BlockHeader_init_def priv_fromObject_def)

lemma BlockHeader_new_with_hash:
  assumes "fm_hash data = Some h" and "h \<noteq> []"
  shows "BlockHeader_new X (ArgObject data) =
     (if h = computed_hash X data
      then Inr (BlockHeader (fm_version data) (info_prevHash (priv_fromObject data))
         (info_merkleRoot (priv_fromObject data)) (fm_time data) (fm_bits data) (fm_nonce data)
         (fm_auxpow data) (Some h))
      else Inl StateMismatch)"
  using assms
  by (auto simp: BlockHeader_new_object BlockHeader_init_def id_get_def priv_getHash_eq
      computed_hash_def Let_def set_id_cache_def priv_fromObject_def)

text \<open>
  C8, amended. When a header is constructed from a field map whose \<open>hash\<close> is a non-empty
  string, construction fails with the state error if and only if the supplied hash
  differs from the hash computed from the other fields (the hash of the header built
  from the map without its \<open>hash\<close>); on success the header's hash is the supplied one.
\<close>

theorem constructor_checks_truthy_hash:
  assumes "fm_hash data = Some h" and "h \<noteq> []"
  shows "\<exists>this0 c this0'.
           BlockHeader_new X (ArgObject (data\<lparr>fm_hash := None\<rparr>)) = Inr this0 \<and>
           id_get X this0 = Inr (c, this0') \<and>
           (BlockHeader_new X (ArgObject data) = Inl StateMismatch \<longleftrightarrow> h \<noteq> c) \<and>
           (h = c \<longrightarrow> BlockHeader_new X (ArgObject data) = Inr this0' \<and>
                       id_get X this0' = Inr (h, this0')) \<and>
           (\<forall>this. BlockHeader_new X (ArgObject data) = Inr this \<longrightarrow>
                     id_get X this = Inr (h, this))"
proof -
  let ?h0 = "BlockHeader (fm_version data) (info_prevHash (priv_fromObject data))
         (info_merkleRoot (priv_fromObject data)) (fm_time data) (fm_bits data) (fm_nonce data)
         (fm_auxpow data) None"
  let ?c = "computed_hash X data"
  have 0: "BlockHeader_new X (ArgObject (data\<lparr>fm_hash := None\<rparr>)) = Inr ?h0"
    by (simp add: BlockHeader_new_without_hash priv_fromObject_def)
  have 1: "id_get X ?h0 = Inr (?c, set_id_cache (Some ?c) ?h0)"
    by (simp add: id_get_def priv_getHash_eq computed_hash_def Let_def)
  have 2: "set_id_cache (Some h) ?h0 = BlockHeader (fm_version data) (info_prevHash (priv_fromObject data))
         (info_merkleRoot (priv_fromObject data)) (fm_time data) (fm_bits data) (fm_nonce data)
         (fm_auxpow data) (Some h)"
    by (simp add: set_id_cache_def)
  have 3: "id_get X (set_id_cache (Some h) ?h0) = Inr (h, set_id_cache (Some h) ?h0)"
    using assms(2) by (simp add: id_get_def)
  show ?thesis
    using 0 1 2 3 BlockHeader_new_with_hash [OF assms, of X]
    by (auto split: if_splits)
qed


lemma le_bytes_4:
  "le_bytes 4 v = [word_of_nat (v mod 256), word_of_nat (v div 256 mod 256),
     word_of_nat (v div 256 div 256 mod 256), word_of_nat (v div 256 div 256 div 256 mod 256)]"
proof -
  have 4: "(4 :: nat) = Suc (Suc (Suc (Suc 0)))" by simp
  show ?thesis unfolding 4 by simp
qed

lemma replicate_32:
  "replicate 32 x = [x,x,x,x,x,x,x,x,x,x,x,x,x,x,x,x,x,x,x,x,x,x,x,x,x,x,x,x,x,x,x,x]"
  by (simp add: eval_nat_numeral)

lemma hex_of_zero [simp]: "hexdigit 0 = CHR ''0''" "hexdigit (Suc 0) = CHR ''1''"
  by (simp_all add: hexdigit_def)

theorem hash_of_fixed_fields_only_witness:
  "priv_getHash example_externals
     (BlockHeader 256 (replicate 32 0) (replicate 32 0) 0 0x1e0ffff0 0
       (Some (AuxPow (Txn 1 0 0 [] 0 [] [] 0) (replicate 32 0) (MerkleBranch 0 [] 0)
        (MerkleBranch 0 [] 0) (BlockHeader 1 (replicate 32 0) (replicate 32 0) 0 0 0 None None)))
       None) =
   priv_getHash example_externals
     (BlockHeader 256 (replicate 32 0) (replicate 32 0) 0 0x1e0ffff0 0 None None)"
  by (rule hash_of_fixed_fields_only [THEN conjunct2, THEN conjunct1])
    (simp_all add: memo_ok_def)

lemma example_digest:
  "sha256sha256 example_externals (fixed_encoding
      (BlockHeader 1 (replicate 32 0) (replicate 32 0) 0 0 0 a c)) = [1, 0, 0, 0, 0, 0, 0, 0, 0, 0, 0, 0, 0, 0, 0, 0, 0, 0, 0, 0, 0, 0, 0, 0, 0, 0, 0, 0, 0, 0, 0, 0]"
  by (simp add: example_externals_def fixed_encoding_def le_bytes_4 replicate_32)

lemma example_hash:
  "toString_hex (rev (sha256sha256 example_externals (fixed_encoding
      (BlockHeader 1 (replicate 32 0) (replicate 32 0) 0 0 0 a c)))) =
   ''0000000000000000000000000000000000000000000000000000000000000001''"
  unfolding example_digest by simp


text \<open>
  C8, as stated, fails for the empty string: \<open>if (info.hash)\<close> is false for it, the
  comparison is skipped and construction succeeds although the computed hash differs;
  the hash of the constructed header is then not the supplied one. (The digest of the
  example is a stand-in; the guard does not depend on it, and a real digest of 32 bytes
  never has the empty string as its hex text.)
\<close>

theorem constructor_empty_hash_counterexample:
  "BlockHeader_new example_externals
     (ArgObject \<lparr>fm_hash = Some [], fm_version = 1, fm_prevHash = Buffer (replicate 32 0),
        fm_merkleRoot = Buffer (replicate 32 0), fm_time = 0, fm_bits = 0, fm_nonce = 0,
        fm_auxpow = None\<rparr>) =
     Inr (BlockHeader 1 (replicate 32 0) (replicate 32 0) 0 0 0 None None) \<and>
   id_get example_externals (BlockHeader 1 (replicate 32 0) (replicate 32 0) 0 0 0 None None) =
     Inr (''0000000000000000000000000000000000000000000000000000000000000001'',
          BlockHeader 1 (replicate 32 0) (replicate 32 0) 0 0 0 None (Some ''0000000000000000000000000000000000000000000000000000000000000001''))"
  by (simp add: BlockHeader_new_without_hash priv_fromObject_def id_get_def priv_getHash_eq
      example_hash Let_def set_id_cache_def)

theorem constructor_checks_truthy_hash_witness:
  "fm_hash \<lparr>fm_hash = Some ''0000000000000000000000000000000000000000000000000000000000000001'', fm_version = 1, fm_prevHash = Buffer (replicate 32 0),
        fm_merkleRoot = Buffer (replicate 32 0), fm_time = 0, fm_bits = 0, fm_nonce = 0,
        fm_auxpow = None\<rparr> = Some ''0000000000000000000000000000000000000000000000000000000000000001'' \<and>
   ''0000000000000000000000000000000000000000000000000000000000000001'' \<noteq> [] \<and>
   BlockHeader_new example_externals
     (ArgObject \<lparr>fm_hash = Some ''0000000000000000000000000000000000000000000000000000000000000001'', fm_version = 1, fm_prevHash = Buffer (replicate 32 0),
        fm_merkleRoot = Buffer (replicate 32 0), fm_time = 0, fm_bits = 0, fm_nonce = 0,
        fm_auxpow = None\<rparr>) =
     Inr (BlockHeader 1 (replicate 32 0) (replicate 32 0) 0 0 0 None (Some ''0000000000000000000000000000000000000000000000000000000000000001''))"
proof -
  let ?d1 = "\<lparr>fm_hash = Some ''0000000000000000000000000000000000000000000000000000000000000001'', fm_version = 1, fm_prevHash = Buffer (replicate 32 0),
        fm_merkleRoot = Buffer (replicate 32 0), fm_time = 0, fm_bits = 0, fm_nonce = 0,
        fm_auxpow = None\<rparr>"
  let ?h0 = "BlockHeader 1 (replicate 32 0) (replicate 32 0) 0 0 0 None None"
  let ?h1 = "BlockHeader 1 (replicate 32 0) (replicate 32 0) 0 0 0 None (Some ''0000000000000000000000000000000000000000000000000000000000000001'')"
  have a1: "fm_hash ?d1 = Some ''0000000000000000000000000000000000000000000000000000000000000001''" and b1: "''0000000000000000000000000000000000000000000000000000000000000001'' \<noteq> []" by simp_all
  have 0: "BlockHeader_new example_externals (ArgObject (?d1\<lparr>fm_hash := None\<rparr>)) = Inr ?h0"
    by (simp add: BlockHeader_new_without_hash priv_fromObject_def)
  have 1: "id_get example_externals ?h0 = Inr (''0000000000000000000000000000000000000000000000000000000000000001'', ?h1)"
    by (simp add: id_get_def priv_getHash_eq example_hash Let_def set_id_cache_def)
  from constructor_checks_truthy_hash [OF a1 b1, of example_externals]
  obtain this0 c this0' where
    "BlockHeader_new example_externals (ArgObject (?d1\<lparr>fm_hash := None\<rparr>)) = Inr this0"
    "id_get example_externals this0 = Inr (c, this0')"
    "''0000000000000000000000000000000000000000000000000000000000000001'' = c \<longrightarrow> BlockHeader_new example_externals (ArgObject ?d1) = Inr this0'"
    by blast
  with 0 1 have "BlockHeader_new example_externals (ArgObject ?d1) = Inr ?h1"
    by simp
  with a1 b1 show ?thesis by blast
qed


section \<open>Decoding\<close>

lemma bind_r_read:
  "bind_r (read n) f br =
     (if pos br + n \<le> length (buf br)
      then f (take n (drop (pos br) (buf br))) (br\<lparr>pos := pos br + n\<rparr>)
      else Inl TruncatedStream)"
  by (simp add: bind_r_def read_def)

lemma bind_r_return [simp]: "bind_r (return_r x) f = f x"
  by (rule ext) (simp add: bind_r_def return_r_def)

lemma bind_r_assoc: "bind_r (bind_r m f) g = bind_r m (\<lambda>x. bind_r (f x) g)"
  by (rule ext) (simp add: bind_r_def split: sum.splits)

lemma bind_r_readUInt32LE:
  "bind_r readUInt32LE f br =
     (if pos br + 4 \<le> length (buf br)
      then f (word_of_nat (le_nat (take 4 (drop (pos br) (buf br))))) (br\<lparr>pos := pos br + 4\<rparr>)
      else Inl TruncatedStream)"
  by (simp add: readUInt32LE_def bind_r_assoc bind_r_read)

lemma bind_r_readInt32LE:
  "bind_r readInt32LE f br =
     (if pos br + 4 \<le> length (buf br)
      then f (word_of_nat (le_nat (take 4 (drop (pos br) (buf br))))) (br\<lparr>pos := pos br + 4\<rparr>)
      else Inl TruncatedStream)"
  by (simp add: readInt32LE_def bind_r_assoc bind_r_read)

lemma priv_fromBufferReader_eq:
  "priv_fromBufferReader X br =
     (if pos br + 80 \<le> length (buf br)
      then (case AuxPow_new X (info_version (header_fields (drop (pos br) (buf br)) None))
                   (br\<lparr>pos := pos br + 80\<rparr>) of
              Inl e \<Rightarrow> Inl e
            | Inr (a, br') \<Rightarrow> Inr (header_fields (drop (pos br) (buf br)) a, br'))
      else Inl TruncatedStream)"
  by (auto simp: priv_fromBufferReader.simps bind_r_readInt32LE bind_r_readUInt32LE bind_r_read
      header_fields_def bind_r_def [of "AuxPow_new X v" for v] return_r_def add.commute
      split: sum.splits)

lemma getTxn_short: "remaining br < 4 \<Longrightarrow> getTxn X br = Inl TruncatedStream"
  by (auto simp add: getTxn_def bind_r_readInt32LE remaining_def)

lemma AuxPow_new_plain: "ver AND 256 = 0 \<Longrightarrow> AuxPow_new X ver br = Inr (None, br)"
  by (simp add: AuxPow_new.simps)

lemma AuxPow_new_short:
  "ver AND 256 \<noteq> 0 \<Longrightarrow> remaining br < 4 \<Longrightarrow> AuxPow_new X ver br = Inl TruncatedStream"
  by (simp add: AuxPow_new.simps bind_r_def getTxn_short)

lemma BlockHeader_init_no_hash:
  "info_hash info = None \<Longrightarrow> BlockHeader_init X info = Inr (header_of info)"
  by (simp add: BlockHeader_init_def header_of_def)

lemma BlockHeader_new_buffer:
  "BlockHeader_new X (ArgBuffer b) =
     (case priv_fromBufferReader X (BufferReader b) of
        Inl e \<Rightarrow> Inl e
      | Inr (info, br) \<Rightarrow> Inr (header_of info))"
  by (auto simp: BlockHeader_new.simps priv_from.simps priv_fromBufferReader_eq
      BlockHeader_init_no_hash header_fields_def split: sum.splits)

lemma fromBuffer_eq: "fromBuffer X b = BlockHeader_new X (ArgBuffer b)"
  by (auto simp: fromBuffer_def BlockHeader_new_buffer BlockHeader_new.simps [of X "ArgObject d" for d]
      priv_from.simps priv_fromBufferReader_eq BlockHeader_init_no_hash header_fields_def
      priv_fromObject_def as_object_def header_of_def split: sum.splits)

lemma decode_short:
  "length b < 80 \<Longrightarrow> BlockHeader_new X (ArgBuffer b) = Inl TruncatedStream"
  by (simp add: BlockHeader_new_buffer priv_fromBufferReader_eq BufferReader_def)

lemma decode_parent:
  assumes "length b = 80"
  shows "BlockHeader_new X (ArgBuffer b) =
     (if info_version (header_fields b None) AND 256 = 0
      then Inr (header_of (header_fields b None))
      else Inl TruncatedStream)"
  using assms
  by (simp add: BlockHeader_new_buffer priv_fromBufferReader_eq BufferReader_def
      AuxPow_new_plain AuxPow_new_short remaining_def)

lemma unat_byte_less: "unat (b :: byte) < 256"
  using unsigned_less [of b, where 'a = nat] by simp

lemma le_bytes_le_nat: "le_bytes (length bs) (le_nat bs) = bs"
proof (induction bs)
  case Nil
  show ?case by simp
next
  case (Cons b bs)
  have "(unat b + 256 * le_nat bs) mod 256 = unat b"
    using unat_byte_less [of b] by simp
  moreover have "(unat b + 256 * le_nat bs) div 256 = le_nat bs"
    using unat_byte_less [of b] by simp
  ultimately show ?case using Cons by simp
qed

lemma le_nat_less: "le_nat bs < 256 ^ length bs"
proof (induction bs)
  case Nil
  show ?case by simp
next
  case (Cons b bs)
  have "unat b + 256 * le_nat bs < 256 + 256 * le_nat bs"
    using unat_byte_less [of b] by simp
  also have "\<dots> = 256 * (le_nat bs + 1)" by simp
  also have "\<dots> \<le> 256 * 256 ^ length bs"
    using Cons by (simp only: mult_le_cancel1) simp
  finally show ?case by simp
qed

lemma le_bytes_word32:
  assumes "length bs = 4"
  shows "le_bytes 4 (unat (word_of_nat (le_nat bs) :: 32 word)) = bs"
proof -
  have "le_nat bs < 256 ^ 4" using le_nat_less [of bs] assms by simp
  then have "unat (word_of_nat (le_nat bs) :: 32 word) = le_nat bs"
    by (simp add: unat_of_nat)
  then show ?thesis using le_bytes_le_nat [of bs] assms by simp
qed

lemma fixed_encoding_header_fields:
  assumes "80 \<le> length b"
  shows "fixed_encoding (header_of (header_fields b a)) = take 80 b"
proof -
  have e: "(80 :: nat) = 4 + (32 + (32 + (4 + (4 + 4))))" by simp
  have "take 80 b = take 4 b @ take 32 (drop 4 b) @ take 32 (drop 36 b) @
      take 4 (drop 68 b) @ take 4 (drop 72 b) @ take 4 (drop 76 b)"
    unfolding e take_add drop_drop by simp
  moreover have "length (take 4 b) = 4" "length (take 4 (drop 68 b)) = 4"
    "length (take 4 (drop 72 b)) = 4" "length (take 4 (drop 76 b)) = 4"
    using assms by simp_all
  ultimately show ?thesis
    by (simp add: fixed_encoding_def header_of_def header_fields_def le_bytes_word32)
qed

lemma isAuxPow_header_of:
  "isAuxPow (header_of info) \<longleftrightarrow> info_version info AND 256 \<noteq> 0"
  by (simp add: isAuxPow_def header_of_def)

lemma AuxPow_new_flagged_Inr:
  assumes "ver AND 256 \<noteq> 0"
  shows "AuxPow_new X ver br = Inr (r, br') \<longleftrightarrow>
     (\<exists>tx s1 bh s2 cb s3 bb s4 pb parent.
        getTxn X br = Inr (tx, s1) \<and> read 32 s1 = Inr (bh, s2) \<and>
        merkleBranch X s2 = Inr (cb, s3) \<and> merkleBranch X s3 = Inr (bb, s4) \<and>
        read 80 s4 = Inr (pb, br') \<and> BlockHeader_new X (ArgBuffer pb) = Inr parent \<and>
        r = Some (AuxPow tx bh cb bb parent))"
  using assms
  by (auto simp: AuxPow_new.simps bind_r_def split: sum.splits)

lemma decode_parent_plain:
  assumes "read 80 s = Inr (pb, s')" and "BlockHeader_new X (ArgBuffer pb) = Inr parent"
  shows "plain_header parent \<and> fixed_encoding parent = pb"
proof -
  from assms(1) have len: "length pb = 80" by (simp add: read_Inr)
  with assms(2) have v: "info_version (header_fields pb None) AND 256 = 0"
    and p: "parent = header_of (header_fields pb None)"
    by (auto simp: decode_parent split: if_splits)
  from len have "fixed_encoding parent = pb"
    by (simp add: p fixed_encoding_header_fields)
  moreover have "plain_header parent"
    using v len by (simp add: plain_header_def p isAuxPow_header_of)
      (simp add: header_of_def header_fields_def)
  ultimately show ?thesis by simp
qed

lemma decoded_header:
  assumes "BlockHeader_new X (ArgBuffer b) = Inr h"
  shows "80 \<le> length b \<and> fixed_encoding h = take 80 b \<and>
         length (prevHash h) = 32 \<and> length (merkleRoot h) = 32 \<and> id_cache h = None \<and>
         (if isAuxPow h
          then (\<exists>a. auxpow_field h = Some a \<and> plain_header (parentBlock a))
          else auxpow_field h = None)"
proof -
  from assms have len: "80 \<le> length b"
    using decode_short [of b X] by (cases "length b < 80") simp_all
  let ?ver = "info_version (header_fields b None)"
  from assms len obtain a br' where
    aux: "AuxPow_new X ?ver \<lparr>buf = b, pos = 80\<rparr> = Inr (a, br')"
    and h: "h = header_of (header_fields b a)"
    by (auto simp: BlockHeader_new_buffer priv_fromBufferReader_eq BufferReader_def
        split: sum.splits)
  have ver: "info_version (header_fields b a) = ?ver"
    by (simp add: header_fields_def)
  have enc: "fixed_encoding h = take 80 b"
    using len by (simp add: h fixed_encoding_header_fields)
  have lens: "length (prevHash h) = 32" "length (merkleRoot h) = 32" "id_cache h = None"
    using len by (simp_all add: h header_of_def header_fields_def)
  have "if isAuxPow h
          then (\<exists>a. auxpow_field h = Some a \<and> plain_header (parentBlock a))
          else auxpow_field h = None"
  proof (cases "?ver AND 256 = 0")
    case True
    with aux have "a = None" by (simp add: AuxPow_new_plain)
    with True show ?thesis by (simp add: h isAuxPow_header_of ver) (simp add: header_of_def header_fields_def)
  next
    case False
    from aux [unfolded AuxPow_new_flagged_Inr [OF False]]
    obtain tx bh cb bb s4 pb parent where
      "read 80 s4 = Inr (pb, br')" "BlockHeader_new X (ArgBuffer pb) = Inr parent"
      "a = Some (AuxPow tx bh cb bb parent)"
      by blast
    with decode_parent_plain [of s4 pb br' X parent] False show ?thesis
      by (simp add: h isAuxPow_header_of ver) (simp add: header_of_def header_fields_def)
  qed
  with len enc lens show ?thesis by simp
qed

text \<open>
  C1. For every header decoded from a buffer, \<open>validProofOfWork()\<close> hashes the 80-byte
  encoding of the parent header when the header has AuxPoW and the header's own 80-byte
  encoding otherwise, with the scrypt primitive; it reads the digest as a little-endian
  unsigned integer and returns true if and only if that integer is at most
  \<open>getTargetDifficulty(this.bits)\<close>.
\<close>

theorem validProofOfWork_decoded:
  assumes "BlockHeader_new X (ArgBuffer b) = Inr this"
  shows "\<exists>hashBuf.
           toBuffer X (if isAuxPow this then parentBlock (the (auxpow this)) else this) False =
             Inr hashBuf \<and>
           length hashBuf = 80 \<and>
           validProofOfWork X this =
             Inr (BN_fromBuffer (scrypt X hashBuf) \<le> getTargetDifficulty this (Some (bits this)))"
proof -
  note d = decoded_header [OF assms]
  have target: "getTargetDifficulty this None = getTargetDifficulty this (Some (bits this))"
    by (simp add: getTargetDifficulty_def)
  show ?thesis
  proof (cases "isAuxPow this")
    case False
    with d have "length (fixed_encoding this) = 80"
      by (simp add: length_fixed_encoding)
    with False show ?thesis
      by (auto simp: validProofOfWork_def toBuffer_plain toBuffer_False target Let_def)
  next
    case True
    with d obtain a where a: "auxpow_field this = Some a" "plain_header (parentBlock a)"
      by auto
    then have "length (fixed_encoding (parentBlock a)) = 80" "\<not> isAuxPow (parentBlock a)"
      by (simp_all add: length_fixed_encoding plain_header_def)
    with True a(1) show ?thesis
      by (auto simp: validProofOfWork_def auxpow_def toBuffer_plain toBuffer_False target Let_def)
  qed
qed

lemma bind_r_varint1:
  "bind_r (readVarintNum example_externals) f br =
     (if pos br + 1 \<le> length (buf br)
      then f (le_nat (take 1 (drop (pos br) (buf br)))) (br\<lparr>pos := pos br + 1\<rparr>)
      else Inl TruncatedStream)"
  by (simp add: example_externals_def bind_r_assoc bind_r_read)

lemma bind_r_peek:
  "bind_r peekUInt16BE f br =
     (if pos br + 2 \<le> length (buf br)
      then f (be_nat (take 2 (drop (pos br) (buf br)))) br
      else Inl TruncatedStream)"
  by (simp add: bind_r_def peekUInt16BE_def read_def)

lemma return_r_apply: "return_r x br = Inr (x, br)"
  by (simp add: return_r_def)

lemma bind_r_if:
  "bind_r (if c then p else q) f = (if c then bind_r p f else bind_r q f)"
  by simp

lemma example_block_unfold: "example_block = [0, 1, 0, 0, 0, 0, 0, 0, 0, 0, 0, 0, 0, 0, 0, 0, 0, 0, 0, 0, 0, 0, 0, 0, 0, 0, 0, 0, 0, 0, 0, 0, 0, 0, 0, 0, 0, 0, 0, 0, 0, 0, 0, 0, 0, 0, 0, 0, 0, 0, 0, 0, 0, 0, 0, 0, 0, 0, 0, 0, 0, 0, 0, 0, 0, 0, 0, 0, 0, 0, 0, 0, 240, 255, 15, 30, 0, 0, 0, 0, 1, 0, 0, 0, 1, 3, 3, 3, 3, 3, 3, 3, 3, 3, 3, 3, 3, 3, 3, 3, 3, 3, 3, 3, 3, 3, 3, 3, 3, 3, 3, 3, 3, 3, 3, 3, 3, 255, 255, 255, 255, 2, 81, 82, 0, 0, 0, 0, 1, 0, 0, 0, 0, 0, 0, 0, 0, 1, 106, 0, 0, 0, 0, 7, 7, 7, 7, 7, 7, 7, 7, 7, 7, 7, 7, 7, 7, 7, 7, 7, 7, 7, 7, 7, 7, 7, 7, 7, 7, 7, 7, 7, 7, 7, 7, 1, 1, 0, 0, 0, 0, 0, 0, 0, 0, 0, 0, 0, 0, 0, 0, 0, 0, 0, 0, 0, 0, 0, 0, 0, 0, 0, 0, 0, 0, 0, 0, 0, 0, 0, 0, 0, 0, 0, 0, 0, 0, 2, 0, 0, 0, 0, 0, 0, 0, 0, 0, 0, 0, 0, 0, 0, 0, 0, 0, 0, 0, 0, 0, 0, 0, 0, 0, 0, 0, 0, 0, 0, 0, 0, 0, 0, 0, 0, 0, 0, 0, 0, 0, 0, 0, 0, 0, 0, 0, 0, 0, 0, 0, 0, 0, 0, 0, 0, 0, 0, 0, 0, 0, 0, 0, 0, 0, 0, 0, 0, 0, 0, 0, 0, 0, 0, 0, 0, 0, 0, 0]"
  by (simp add: example_block_def example_payload_def example_parent_def eval_nat_numeral)

lemma example_getTxn:
  "getTxn example_externals \<lparr>buf = example_block, pos = 80\<rparr> =
     Inr (Txn 1 0 1 [TxIn (replicate 32 3) [0xff, 0xff, 0xff, 0xff] 2 [0x51, 0x52] 0]
             1 [TxOut [0, 0, 0, 0, 0, 0, 0, 0] 1 [0x6a]] [] 0,
          \<lparr>buf = example_block, pos = 143\<rparr>)"
  unfolding example_block_unfold
  by (simp add: getTxn_def getTxIn_def getTxOut_def bind_r_readInt32LE bind_r_readUInt32LE
      bind_r_read bind_r_varint1 bind_r_peek bind_r_assoc be_nat_def replicate_32)
    (simp add: return_r_def)

lemma example_decode:
  "BlockHeader_new example_externals (ArgBuffer example_block) = Inr example_header"
  unfolding example_block_unfold example_header_def
  by (simp add: BlockHeader_new_buffer priv_fromBufferReader_eq BufferReader_def
      AuxPow_new.simps header_fields_def header_of_def
      getTxn_def getTxIn_def getTxOut_def merkleBranch_def readReverse_def
      bind_r_readInt32LE bind_r_readUInt32LE
      bind_r_read bind_r_varint1 bind_r_peek bind_r_assoc be_nat_def replicate_32)
    (simp add: return_r_def eval_nat_numeral)

lemma example_decode_reader:
  "priv_fromBufferReader example_externals (BufferReader example_block) =
     Inr (header_fields example_block (auxpow_field example_header),
          \<lparr>buf = example_block, pos = 297\<rparr>)"
  unfolding example_block_unfold example_header_def
  by (simp add: BlockHeader_new_buffer priv_fromBufferReader_eq BufferReader_def
      AuxPow_new.simps header_fields_def header_of_def
      getTxn_def getTxIn_def getTxOut_def merkleBranch_def readReverse_def
      bind_r_readInt32LE bind_r_readUInt32LE
      bind_r_read bind_r_varint1 bind_r_peek bind_r_assoc be_nat_def replicate_32)
    (simp add: return_r_def eval_nat_numeral)

theorem validProofOfWork_decoded_witness:
  "BlockHeader_new example_externals (ArgBuffer example_block) = Inr example_header \<and>
   isAuxPow example_header \<and>
   validProofOfWork example_externals example_header = Inr True"
proof -
  from validProofOfWork_decoded [OF example_decode]
  obtain hashBuf where
    h: "toBuffer example_externals
          (if isAuxPow example_header then parentBlock (the (auxpow example_header))
           else example_header) False = Inr hashBuf"
    and v: "validProofOfWork example_externals example_header =
      Inr (BN_fromBuffer (scrypt example_externals hashBuf)
             \<le> getTargetDifficulty example_header (Some (bits example_header)))"
    by blast
  have flag: "isAuxPow example_header"
    by (simp add: isAuxPow_def example_header_def)
  from h flag have "hashBuf = example_parent"
    by (simp add: toBuffer_False auxpow_def example_header_def fixed_encoding_def le_bytes_4
        example_parent_def)
  then have "BN_fromBuffer (scrypt example_externals hashBuf) = 2"
    by (simp add: BN_fromBuffer_def example_externals_def example_parent_def replicate_32)
  moreover have "getTargetDifficulty example_header (Some (bits example_header)) =
      1048560 * 2 ^ 216"
    by (simp add: example_header_def getTargetDifficulty_explicit drop_bit_eq_div)
  ultimately show ?thesis using v flag example_decode by simp
qed

lemma readReverse_eq:
  "readReverse n br =
     (if pos br + n \<le> length (buf br)
      then Inr (rev (take n (drop (pos br) (buf br))), br\<lparr>pos := pos br + n\<rparr>)
      else Inl TruncatedStream)"
  by (simp add: readReverse_def bind_r_def read_def return_r_def)

lemma repeat_readReverse_short:
  "remaining br < 32 * n \<Longrightarrow> repeat_r n (readReverse 32) br = Inl TruncatedStream"
proof (induction n arbitrary: br)
  case 0
  then show ?case by simp
next
  case (Suc n)
  show ?case
  proof (cases "pos br + 32 \<le> length (buf br)")
    case False
    then show ?thesis
      by (simp add: bind_r_def readReverse_eq)
  next
    case True
    with Suc.prems have "remaining (br\<lparr>pos := pos br + 32\<rparr>) < 32 * n"
      by (simp add: remaining_def)
    from Suc.IH [OF this] True show ?thesis
      by (simp add: bind_r_def readReverse_eq)
  qed
qed

lemma merkleBranch_truncated:
  "readVarintNum X br = Inr (n, br') \<Longrightarrow> remaining br' < 32 * n \<Longrightarrow>
   merkleBranch X br = Inl TruncatedStream"
  by (simp add: merkleBranch_def bind_r_def repeat_readReverse_short)

lemma decode_flagged:
  assumes "80 \<le> length b" and "info_version (header_fields b None) AND 256 \<noteq> 0"
  shows "BlockHeader_new X (ArgBuffer b) =
     (case getTxn X \<lparr>buf = b, pos = 80\<rparr> of Inl e \<Rightarrow> Inl e | Inr (tx, s1) \<Rightarrow>
      case read 32 s1 of Inl e \<Rightarrow> Inl e | Inr (bh, s2) \<Rightarrow>
      case merkleBranch X s2 of Inl e \<Rightarrow> Inl e | Inr (cb, s3) \<Rightarrow>
      case merkleBranch X s3 of Inl e \<Rightarrow> Inl e | Inr (bb, s4) \<Rightarrow>
      case read 80 s4 of Inl e \<Rightarrow> Inl e | Inr (pb, s5) \<Rightarrow>
      case BlockHeader_new X (ArgBuffer pb) of Inl e \<Rightarrow> Inl e | Inr parent \<Rightarrow>
        Inr (header_of (header_fields b (Some (AuxPow tx bh cb bb parent)))))"
  using assms
  by (simp add: BlockHeader_new_buffer priv_fromBufferReader_eq BufferReader_def
      AuxPow_new.simps bind_r_def split: sum.splits prod.splits)

text \<open>
  C9. Decoding a buffer shorter than 80 bytes fails with the truncated-stream error and
  produces no header. A Merkle branch whose count asks for more 32-byte hashes than there
  are bytes left fails the same way, and so does the decode of a header whose AuxPoW has
  such a coinbase branch or such a blockchain branch.
\<close>

theorem truncated_input_fails:
  "(length b < 80 \<longrightarrow>
      BlockHeader_new X (ArgBuffer b) = Inl TruncatedStream \<and>
      fromBuffer X b = Inl TruncatedStream) \<and>
   (readVarintNum X br = Inr (n, br') \<and> remaining br' < 32 * n \<longrightarrow>
      merkleBranch X br = Inl TruncatedStream) \<and>
   (80 \<le> length b \<and> info_version (header_fields b None) AND 0x100 \<noteq> 0 \<and>
    getTxn X \<lparr>buf = b, pos = 80\<rparr> = Inr (tx, s1) \<and> read 32 s1 = Inr (bh, s2) \<and>
    readVarintNum X s2 = Inr (n2, s3) \<and> remaining s3 < 32 * n2 \<longrightarrow>
      BlockHeader_new X (ArgBuffer b) = Inl TruncatedStream \<and>
      fromBuffer X b = Inl TruncatedStream) \<and>
   (80 \<le> length b \<and> info_version (header_fields b None) AND 0x100 \<noteq> 0 \<and>
    getTxn X \<lparr>buf = b, pos = 80\<rparr> = Inr (tx, s1) \<and> read 32 s1 = Inr (bh, s2) \<and>
    merkleBranch X s2 = Inr (cb, t3) \<and>
    readVarintNum X t3 = Inr (n3, t4) \<and> remaining t4 < 32 * n3 \<longrightarrow>
      BlockHeader_new X (ArgBuffer b) = Inl TruncatedStream \<and>
      fromBuffer X b = Inl TruncatedStream)"
  by (auto simp: fromBuffer_eq decode_short decode_flagged merkleBranch_truncated)

lemma decoded_obtain:
  assumes "BlockHeader_new X (ArgBuffer b) = Inr h"
  shows "80 \<le> length b \<and>
    (\<exists>a br'. AuxPow_new X (info_version (header_fields b None)) \<lparr>buf = b, pos = 80\<rparr> =
        Inr (a, br') \<and> h = header_of (header_fields b a))"
proof -
  from assms have len: "80 \<le> length b"
    using decode_short [of b X] by (cases "length b < 80") simp_all
  with assms show ?thesis
    by (auto simp: BlockHeader_new_buffer priv_fromBufferReader_eq BufferReader_def
        split: sum.splits)
qed

lemma auxpow_header_of:
  "auxpow (header_of info) = (if info_version info AND 256 = 0 then None else info_auxpow info)"
  by (simp add: auxpow_def isAuxPow_def header_of_def)

lemma decode_plain:
  assumes "80 \<le> length b" and "info_version (header_fields b None) AND 256 = 0"
  shows "priv_fromBufferReader X (BufferReader b) =
           Inr (header_fields b None, \<lparr>buf = b, pos = 80\<rparr>)"
    and "BlockHeader_new X (ArgBuffer b) = Inr (header_of (header_fields b None))"
  using assms
  by (simp_all add: BlockHeader_new_buffer priv_fromBufferReader_eq BufferReader_def
      AuxPow_new_plain)

text \<open>
  C7, amended. Reading \<open>auxpow\<close> of a header whose bit 8 is not set yields no value. A
  buffer of at least 80 bytes whose version lacks bit 8 decodes to a header without
  AuxPoW, whatever follows the 80 bytes: the reader stops at position 80. When the version
  has bit 8 set, decoding succeeds only if the transaction, the block hash, the two
  branches and the parent header are all read from the bytes after position 80, and it
  fails on a buffer that ends there. For every header decoded from a buffer, \<open>auxpow\<close> is
  present if and only if bit 8 is set.
\<close>

theorem auxpow_flag_gating:
  "(\<not> isAuxPow this \<longrightarrow> auxpow this = None) \<and>
   (80 \<le> length b \<and> info_version (header_fields b None) AND 0x100 = 0 \<longrightarrow>
      priv_fromBufferReader X (BufferReader b) =
        Inr (header_fields b None, \<lparr>buf = b, pos = 80\<rparr>) \<and>
      BlockHeader_new X (ArgBuffer b) = Inr (header_of (header_fields b None)) \<and>
      auxpow (header_of (header_fields b None)) = None) \<and>
   (info_version (header_fields b None) AND 0x100 \<noteq> 0 \<and>
    BlockHeader_new X (ArgBuffer b) = Inr h \<longrightarrow>
      (\<exists>tx s1 bh s2 cb s3 bb s4 pb s5 parent.
         getTxn X \<lparr>buf = b, pos = 80\<rparr> = Inr (tx, s1) \<and> read 32 s1 = Inr (bh, s2) \<and>
         merkleBranch X s2 = Inr (cb, s3) \<and> merkleBranch X s3 = Inr (bb, s4) \<and>
         read 80 s4 = Inr (pb, s5) \<and> BlockHeader_new X (ArgBuffer pb) = Inr parent \<and>
         auxpow h = Some (AuxPow tx bh cb bb parent))) \<and>
   (info_version (header_fields b None) AND 0x100 \<noteq> 0 \<and> length b \<le> 80 \<longrightarrow>
      BlockHeader_new X (ArgBuffer b) = Inl TruncatedStream) \<and>
   (BlockHeader_new X (ArgBuffer b) = Inr h \<longrightarrow> (isAuxPow h \<longleftrightarrow> auxpow h \<noteq> None))"
proof -
  have 1: "\<not> isAuxPow this \<longrightarrow> auxpow this = None"
    by (simp add: auxpow_def)
  have 2: "80 \<le> length b \<and> info_version (header_fields b None) AND 0x100 = 0 \<longrightarrow>
      priv_fromBufferReader X (BufferReader b) =
        Inr (header_fields b None, \<lparr>buf = b, pos = 80\<rparr>) \<and>
      BlockHeader_new X (ArgBuffer b) = Inr (header_of (header_fields b None)) \<and>
      auxpow (header_of (header_fields b None)) = None"
    by (simp add: decode_plain auxpow_header_of)
  have 3: "info_version (header_fields b None) AND 0x100 \<noteq> 0 \<and>
    BlockHeader_new X (ArgBuffer b) = Inr h \<longrightarrow>
      (\<exists>tx s1 bh s2 cb s3 bb s4 pb s5 parent.
         getTxn X \<lparr>buf = b, pos = 80\<rparr> = Inr (tx, s1) \<and> read 32 s1 = Inr (bh, s2) \<and>
         merkleBranch X s2 = Inr (cb, s3) \<and> merkleBranch X s3 = Inr (bb, s4) \<and>
         read 80 s4 = Inr (pb, s5) \<and> BlockHeader_new X (ArgBuffer pb) = Inr parent \<and>
         auxpow h = Some (AuxPow tx bh cb bb parent))"
  proof (intro impI, elim conjE)
    assume v: "info_version (header_fields b None) AND 0x100 \<noteq> 0"
      and d: "BlockHeader_new X (ArgBuffer b) = Inr h"
    from v have v': "info_version (header_fields b None) AND 256 \<noteq> 0" by simp
    from decoded_obtain [OF d] obtain a br' where
      aux: "AuxPow_new X (info_version (header_fields b None)) \<lparr>buf = b, pos = 80\<rparr> = Inr (a, br')"
      and h: "h = header_of (header_fields b a)"
      by blast
    have ver: "info_version (header_fields b a) = info_version (header_fields b None)"
      by (simp add: header_fields_def)
    have "auxpow h = a"
      using v' by (simp add: h auxpow_header_of ver) (simp add: header_fields_def)
    with aux [unfolded AuxPow_new_flagged_Inr [OF v']] show
      "\<exists>tx s1 bh s2 cb s3 bb s4 pb s5 parent.
         getTxn X \<lparr>buf = b, pos = 80\<rparr> = Inr (tx, s1) \<and> read 32 s1 = Inr (bh, s2) \<and>
         merkleBranch X s2 = Inr (cb, s3) \<and> merkleBranch X s3 = Inr (bb, s4) \<and>
         read 80 s4 = Inr (pb, s5) \<and> BlockHeader_new X (ArgBuffer pb) = Inr parent \<and>
         auxpow h = Some (AuxPow tx bh cb bb parent)"
      by blast
  qed
  have 4: "info_version (header_fields b None) AND 0x100 \<noteq> 0 \<and> length b \<le> 80 \<longrightarrow>
      BlockHeader_new X (ArgBuffer b) = Inl TruncatedStream"
  proof (intro impI, elim conjE)
    assume v: "info_version (header_fields b None) AND 0x100 \<noteq> 0" and l: "length b \<le> 80"
    show "BlockHeader_new X (ArgBuffer b) = Inl TruncatedStream"
    proof (cases "length b < 80")
      case True
      then show ?thesis by (rule decode_short)
    next
      case False
      with l have "length b = 80" by simp
      with v show ?thesis by (simp add: decode_parent)
    qed
  qed
  have 5: "BlockHeader_new X (ArgBuffer b) = Inr h \<longrightarrow> (isAuxPow h \<longleftrightarrow> auxpow h \<noteq> None)"
    using decoded_header [of X b h] by (auto simp: auxpow_def)
  from 1 2 3 4 5 show ?thesis by blast
qed

end
